theory Spec2Isabelle
  imports Main
begin

section \<open>Python values and exceptions\<close>

text \<open>
  The script \<^verbatim>\<open>pywars.py\<close> handles the values that \<^verbatim>\<open>response.json()\<close> produces
  and the integers and \<^verbatim>\<open>None\<close>s it computes itself. A Python \<^verbatim>\<open>str\<close> is modelled as
  a list of code points below U+0100, one \<^typ>\<open>char\<close> each; a \<^verbatim>\<open>dict\<close> is an association
  list read with \<^const>\<open>map_of\<close>; Python's unbounded \<^verbatim>\<open>int\<close> is \<^typ>\<open>int\<close>. JSON numbers
  with a fraction or an exponent (Python floats) are left out of the value type.
  Integer conversion is that of \<^verbatim>\<open>int(str)\<close> in the interpreter as it is started by
  default, including its bound of 4300 on the number of digits converted.
\<close>

datatype pyval =
    PNone
  | PBool bool
  | PInt int
  | PStr string
  | PList "pyval list"
  | PDict "(string \<times> pyval) list"

datatype py_error =
    KeyError
  | TypeError
  | AttributeError
  | ValueError
  | RequestException

text \<open>Truth value of an object, as used by \<^verbatim>\<open>not x\<close> and \<^verbatim>\<open>if x:\<close>.\<close>

fun truthy :: "pyval \<Rightarrow> bool" where
  "truthy PNone = False"
| "truthy (PBool b) = b"
| "truthy (PInt i) = (i \<noteq> 0)"
| "truthy (PStr s) = (s \<noteq> [])"
| "truthy (PList xs) = (xs \<noteq> [])"
| "truthy (PDict d) = (d \<noteq> [])"

text \<open>\<^verbatim>\<open>obj[key]\<close> with a string key: only a dict accepts it, and a missing key raises.\<close>

fun subscript :: "pyval \<Rightarrow> string \<Rightarrow> py_error + pyval" where
  "subscript (PDict d) k = (case map_of d k of None \<Rightarrow> Inl KeyError | Some v \<Rightarrow> Inr v)"
| "subscript _ k = Inl TypeError"

text \<open>
  The elements a \<^verbatim>\<open>for\<close> loop visits: the items of a list, the one-character strings of
  a string, the keys of a dict; anything else is not iterable.
\<close>

fun py_iter :: "pyval \<Rightarrow> py_error + pyval list" where
  "py_iter (PList xs) = Inr xs"
| "py_iter (PStr s) = Inr (map (\<lambda>c. PStr [c]) s)"
| "py_iter (PDict d) = Inr (map PStr (remdups (map fst d)))"
| "py_iter _ = Inl TypeError"

section \<open>String operations of the standard library\<close>

definition is_digit :: "char \<Rightarrow> bool" where
  "is_digit c = (48 \<le> (of_char c :: nat) \<and> (of_char c :: nat) \<le> 57)"

definition digit_val :: "char \<Rightarrow> nat" where
  "digit_val c = of_char c - 48"

text \<open>The value of a string of decimal digits, most significant digit first.\<close>

definition dec :: "string \<Rightarrow> nat" where
  "dec ds = foldl (\<lambda>a c. 10 * a + digit_val c) 0 ds"

text \<open>
  \<^verbatim>\<open>str.isspace\<close> on one code point below U+0100: the characters \<^verbatim>\<open>str.strip()\<close>
  removes.
\<close>

definition py_isspace :: "char \<Rightarrow> bool" where
  "py_isspace c = ((of_char c :: nat) \<in> {9, 10, 11, 12, 13, 28, 29, 30, 31, 32, 133, 160})"

definition strip :: "string \<Rightarrow> string" where
  "strip s = rev (dropWhile py_isspace (rev (dropWhile py_isspace s)))"

text \<open>\<^verbatim>\<open>str.lower\<close> on code points below U+0100.\<close>

definition lower_char :: "char \<Rightarrow> char" where
  "lower_char c =
     (let n = (of_char c :: nat)
      in if (65 \<le> n \<and> n \<le> 90) \<or> (192 \<le> n \<and> n \<le> 222 \<and> n \<noteq> 215)
         then char_of (n + 32) else c)"

definition lower :: "string \<Rightarrow> string" where
  "lower s = map lower_char s"

definition endswith :: "string \<Rightarrow> string \<Rightarrow> bool" where
  "endswith s suffix =
     (length suffix \<le> length s \<and> drop (length s - length suffix) s = suffix)"

text \<open>\<^verbatim>\<open>s.replace(old, new)\<close> for one-character \<^verbatim>\<open>old\<close> and \<^verbatim>\<open>new\<close>.\<close>

fun replace :: "char \<Rightarrow> char \<Rightarrow> string \<Rightarrow> string" where
  "replace old new [] = []"
| "replace old new (c # cs) = (if c = old then new else c) # replace old new cs"

text \<open>
  \<^verbatim>\<open>int(s)\<close> for a string, base ten: optional surrounding whitespace, an optional sign,
  then digits, where single underscores may stand between digits. The whitespace that
  \<^verbatim>\<open>int\<close> skips is narrower than that of \<^verbatim>\<open>strip\<close>: the separators U+001C to U+001F
  are not skipped. A literal with more digits than \<^verbatim>\<open>sys.get_int_max_str_digits()\<close>,
  4300 unless the interpreter is configured otherwise, is rejected; signs, whitespace and
  underscores do not count. \<^term>\<open>None\<close> stands for the \<^verbatim>\<open>ValueError\<close>.
\<close>

definition int_max_str_digits :: nat where
  "int_max_str_digits = 4300"

definition int_space :: "char \<Rightarrow> bool" where
  "int_space c = ((of_char c :: nat) \<in> {9, 10, 11, 12, 13, 32, 133, 160})"

definition digit_or_us :: "char \<Rightarrow> bool" where
  "digit_or_us c = (is_digit c \<or> c = CHR ''_'')"

fun double_us :: "string \<Rightarrow> bool" where
  "double_us (a # b # cs) = ((a = CHR ''_'' \<and> b = CHR ''_'') \<or> double_us (b # cs))"
| "double_us _ = False"

definition py_int :: "string \<Rightarrow> int option" where
  "py_int s =
     (let s1 = dropWhile int_space s;
          neg = (s1 \<noteq> [] \<and> hd s1 = CHR ''-'');
          s2 = (if s1 \<noteq> [] \<and> (hd s1 = CHR ''+'' \<or> hd s1 = CHR ''-'') then tl s1 else s1);
          body = takeWhile digit_or_us s2;
          rest = dropWhile digit_or_us s2
      in if body = [] \<or> hd body = CHR ''_'' \<or> last body = CHR ''_'' \<or> double_us body
            \<or> int_max_str_digits < length (filter is_digit body)
            \<or> dropWhile int_space rest \<noteq> []
         then None
         else Some ((if neg then - 1 else 1) * int (dec (filter is_digit body))))"

section \<open>The helper functions of the script\<close>

text \<open>
  \<^verbatim>\<open>re.search(r'/(\d+)/$', url)\<close>, returning group 1. \<^verbatim>\<open>match_here\<close> matches the
  pattern at the start of its argument: a slash, the longest run of digits (a shorter run
  can never be followed by a slash), a slash, and then the end of the string or one
  newline before the end, which is what \<^verbatim>\<open>$\<close> accepts. \<^verbatim>\<open>re_search\<close> tries the start
  positions from left to right.
\<close>

definition match_here :: "string \<Rightarrow> string option" where
  "match_here s =
     (case s of
        [] \<Rightarrow> None
      | c # r \<Rightarrow>
          (let ds = takeWhile is_digit r; rest = dropWhile is_digit r
           in if c = CHR ''/'' \<and> ds \<noteq> [] \<and> (rest = ''/'' \<or> rest = [CHR ''/'', CHR 0x0A])
              then Some ds else None))"

fun re_search :: "string \<Rightarrow> string option" where
  "re_search [] = None"
| "re_search (c # cs) =
     (case match_here (c # cs) of Some g \<Rightarrow> Some g | None \<Rightarrow> re_search cs)"

definition extract_id :: "pyval \<Rightarrow> py_error + pyval" where
  "extract_id url_or_list =
     (let url = (case url_or_list of PList xs \<Rightarrow> (if xs = [] then None else Some (hd xs))
                                   | _ \<Rightarrow> Some url_or_list)
      in case url of
           None \<Rightarrow> Inr PNone
         | Some url \<Rightarrow>
             if \<not> truthy url then Inr PNone
             else (case url of
                     PStr s \<Rightarrow>
                       (case re_search (strip s) of
                          None \<Rightarrow> Inr PNone
                        | Some g \<Rightarrow> (case py_int g of None \<Rightarrow> Inl ValueError
                                                  | Some n \<Rightarrow> Inr (PInt n)))
                   | _ \<Rightarrow> Inl AttributeError))"

text \<open>
  \<^verbatim>\<open>calculate_age\<close>: the \<^verbatim>\<open>ValueError\<close> of \<^verbatim>\<open>int\<close> is caught and gives \<^verbatim>\<open>None\<close>; a
  value without \<^verbatim>\<open>lower\<close> raises \<^verbatim>\<open>AttributeError\<close>, which is not caught. In
  \<^verbatim>\<open>extract_id\<close> above the call of \<^verbatim>\<open>int\<close> stands outside any \<^verbatim>\<open>try\<close>, so its
  \<^verbatim>\<open>ValueError\<close> leaves the function.
\<close>

definition calculate_age :: "pyval \<Rightarrow> int \<Rightarrow> py_error + pyval" where
  "calculate_age birth_year reference_year =
     (if \<not> truthy birth_year then Inr PNone
      else (case birth_year of
              PStr s \<Rightarrow>
                if lower s = ''unknown'' then Inr PNone
                else if endswith s ''BBY'' then
                  (case py_int (take (length s - 3) s) of
                     Some n \<Rightarrow> Inr (PInt (reference_year + n))
                   | None \<Rightarrow> Inr PNone)
                else if endswith s ''ABY'' then
                  (case py_int (take (length s - 3) s) of
                     Some n \<Rightarrow> Inr (PInt (reference_year - n))
                   | None \<Rightarrow> Inr PNone)
                else Inr PNone
            | _ \<Rightarrow> Inl AttributeError))"

text \<open>
  \<^verbatim>\<open>remove_unkown\<close> walks every row by index and overwrites the cells equal to one of
  the three tokens. The rows are mutated in place; the model returns the new rows.
\<close>

definition is_sentinel :: "pyval \<Rightarrow> bool" where
  "is_sentinel v = (v = PStr ''unknown'' \<or> v = PStr ''none'' \<or> v = PStr ''n/a'')"

definition remove_unkown_row :: "pyval list \<Rightarrow> pyval list" where
  "remove_unkown_row row =
     fold (\<lambda>i r. if is_sentinel (r ! i) then r[i := PNone] else r) [0..<length row] row"

definition remove_unkown :: "pyval list list \<Rightarrow> pyval list list" where
  "remove_unkown data = map remove_unkown_row data"

definition process_mass :: "pyval \<Rightarrow> py_error + pyval" where
  "process_mass mass =
     (if is_sentinel mass then Inr mass
      else (case mass of
              PStr s \<Rightarrow> Inr (PStr (replace (CHR '','') (CHR ''.'') s))
            | _ \<Rightarrow> Inl AttributeError))"

section \<open>The network\<close>

text \<open>
  The remote service may answer the same URL differently from one request to the next.
  It is a function from the number of requests the loop has sent before and the
  requested URL to what \<^verbatim>\<open>requests.get(url).json()\<close> gives: the parsed body, or the
  exception of a failed transfer or of a body that is not JSON. The URLs requested so
  far are kept in a log. \<^verbatim>\<open>get_data\<close> sends nothing for a false URL and returns
  \<^verbatim>\<open>None\<close>; a true value that is not a string is rejected by the HTTP client.
\<close>

type_synonym web = "nat \<Rightarrow> string \<Rightarrow> py_error + pyval"

definition get_data :: "web \<Rightarrow> pyval \<Rightarrow> string list \<Rightarrow> py_error + pyval \<times> string list" where
  "get_data web api_url sent =
     (if truthy api_url then
        (case api_url of
           PStr u \<Rightarrow> (case web (length sent) u of Inl e \<Rightarrow> Inl e | Inr data \<Rightarrow> Inr (data, sent @ [u]))
         | _ \<Rightarrow> Inl RequestException)
      else Inr (PNone, sent))"

text \<open>Sequencing of steps that may raise: the first exception ends the evaluation.\<close>

definition ebind :: "py_error + 'a \<Rightarrow> ('a \<Rightarrow> py_error + 'b) \<Rightarrow> py_error + 'b" where
  "ebind m f = (case m of Inl e \<Rightarrow> Inl e | Inr x \<Rightarrow> f x)"

section \<open>People\<close>

definition api_url_people :: string where
  "api_url_people = ''https://swapi.py4e.com/api/people/''"

text \<open>The row appended for one person; the list display evaluates its items in order.\<close>

definition people_row :: "pyval \<Rightarrow> py_error + pyval list" where
  "people_row person =
     ebind (subscript person ''name'') (\<lambda>name.
     ebind (ebind (subscript person ''birth_year'') (\<lambda>b. calculate_age b 34)) (\<lambda>age.
     ebind (subscript person ''eye_color'') (\<lambda>eye_color.
     ebind (subscript person ''gender'') (\<lambda>gender.
     ebind (subscript person ''height'') (\<lambda>height.
     ebind (ebind (subscript person ''mass'') process_mass) (\<lambda>mass.
     ebind (ebind (subscript person ''homeworld'') extract_id) (\<lambda>homeworld_id.
     ebind (ebind (subscript person ''species'') extract_id) (\<lambda>species_id.
     Inr [name, age, eye_color, gender, height, mass, homeworld_id, species_id]))))))))"

text \<open>The \<^verbatim>\<open>for person in data['results']\<close> loop, appending to \<^verbatim>\<open>people_data\<close>.\<close>

fun people_for :: "pyval list \<Rightarrow> pyval list list \<Rightarrow> py_error + pyval list list" where
  "people_for [] people_data = Inr people_data"
| "people_for (person # rest) people_data =
     (case people_row person of
        Inl e \<Rightarrow> Inl e
      | Inr row \<Rightarrow> people_for rest (people_data @ [row]))"

text \<open>
  The \<^verbatim>\<open>while api_url_people is not None\<close> loop. It need not end (a page may name itself
  as its successor), so it is a partial function: \<^term>\<open>None\<close> is a run that never returns,
  \<^term>\<open>Some (Inl e)\<close> a run ended by the exception \<open>e\<close>, \<^term>\<open>Some (Inr (sent, people_data))\<close>
  a completed loop with the requests it sent and the rows it gathered.
\<close>

partial_function (option) people_loop ::
  "web \<Rightarrow> pyval \<Rightarrow> string list \<Rightarrow> pyval list list \<Rightarrow> (py_error + string list \<times> pyval list list) option"
where
  "people_loop web api_url sent people_data =
     (if api_url = PNone then Some (Inr (sent, people_data))
      else (case get_data web api_url sent of
              Inl e \<Rightarrow> Some (Inl e)
            | Inr (data, sent') \<Rightarrow>
                (case subscript data ''next'' of
                   Inl e \<Rightarrow> Some (Inl e)
                 | Inr next_url \<Rightarrow>
                     (case ebind (subscript data ''results'') py_iter of
                        Inl e \<Rightarrow> Some (Inl e)
                      | Inr persons \<Rightarrow>
                          (case people_for persons people_data of
                             Inl e \<Rightarrow> Some (Inl e)
                           | Inr people_data' \<Rightarrow> people_loop web next_url sent' people_data')))))"

definition people_header :: "pyval list" where
  "people_header = map PStr [''name'', ''age'', ''eye_color'', ''gender'', ''height'', ''mass'',
     ''homeworld_id'', ''species_id'']"

text \<open>
  The people block as a whole. The file \<^verbatim>\<open>people.csv\<close> is represented by the rows handed
  to the CSV writer, the header first; the result also reports the requests sent.
\<close>

definition people_extraction :: "web \<Rightarrow> (py_error + string list \<times> pyval list list) option" where
  "people_extraction web =
     (case people_loop web (PStr api_url_people) [] [] of
        None \<Rightarrow> None
      | Some (Inl e) \<Rightarrow> Some (Inl e)
      | Some (Inr (sent, people_data)) \<Rightarrow>
          Some (Inr (sent, people_header # remove_unkown people_data)))"

section \<open>Planets and species\<close>

definition api_url_planets :: string where
  "api_url_planets = ''https://swapi.py4e.com/api/planets''"

definition planets_row :: "int \<Rightarrow> pyval \<Rightarrow> py_error + pyval list" where
  "planets_row idn planet =
     ebind (subscript planet ''name'') (\<lambda>name.
     ebind (subscript planet ''diameter'') (\<lambda>diameter.
     ebind (subscript planet ''rotation_period'') (\<lambda>rotation_period.
     ebind (subscript planet ''population'') (\<lambda>population.
     ebind (subscript planet ''surface_water'') (\<lambda>surface_water.
     Inr [PInt idn, name, diameter, rotation_period, population, surface_water])))))"

fun planets_for ::
  "pyval list \<Rightarrow> pyval list list \<Rightarrow> int \<Rightarrow> py_error + pyval list list \<times> int" where
  "planets_for [] planets_data idn = Inr (planets_data, idn)"
| "planets_for (planet # rest) planets_data idn =
     (case planets_row idn planet of
        Inl e \<Rightarrow> Inl e
      | Inr row \<Rightarrow> planets_for rest (planets_data @ [row]) (idn + 1))"

partial_function (option) planets_loop ::
  "web \<Rightarrow> pyval \<Rightarrow> string list \<Rightarrow> pyval list list \<Rightarrow> int
    \<Rightarrow> (py_error + string list \<times> pyval list list \<times> int) option"
where
  "planets_loop web api_url sent planets_data idn =
     (if api_url = PNone then Some (Inr (sent, planets_data, idn))
      else (case get_data web api_url sent of
              Inl e \<Rightarrow> Some (Inl e)
            | Inr (data, sent') \<Rightarrow>
                (case subscript data ''next'' of
                   Inl e \<Rightarrow> Some (Inl e)
                 | Inr next_url \<Rightarrow>
                     (case ebind (subscript data ''results'') py_iter of
                        Inl e \<Rightarrow> Some (Inl e)
                      | Inr planets \<Rightarrow>
                          (case planets_for planets planets_data idn of
                             Inl e \<Rightarrow> Some (Inl e)
                           | Inr (planets_data', idn') \<Rightarrow>
                               planets_loop web next_url sent' planets_data' idn')))))"

definition planets_header :: "pyval list" where
  "planets_header = map PStr [''id'', ''name'', ''diameter'', ''rotation_period'',
     ''population'', ''surface_water'']"

definition planets_extraction :: "web \<Rightarrow> (py_error + string list \<times> pyval list list) option" where
  "planets_extraction web =
     (case planets_loop web (PStr api_url_planets) [] [] 1 of
        None \<Rightarrow> None
      | Some (Inl e) \<Rightarrow> Some (Inl e)
      | Some (Inr (sent, planets_data, idn)) \<Rightarrow>
          Some (Inr (sent, planets_header # remove_unkown planets_data)))"

definition api_url_species :: string where
  "api_url_species = ''https://swapi.py4e.com/api/species''"

definition species_row :: "int \<Rightarrow> pyval \<Rightarrow> py_error + pyval list" where
  "species_row idn species =
     ebind (subscript species ''name'') (\<lambda>name.
     ebind (subscript species ''classification'') (\<lambda>classification.
     ebind (subscript species ''designation'') (\<lambda>designation.
     ebind (subscript species ''average_height'') (\<lambda>average_height.
     ebind (subscript species ''average_lifespan'') (\<lambda>average_lifespan.
     Inr [PInt idn, name, classification, designation, average_height, average_lifespan])))))"

fun species_for ::
  "pyval list \<Rightarrow> pyval list list \<Rightarrow> int \<Rightarrow> py_error + pyval list list \<times> int" where
  "species_for [] species_data idn = Inr (species_data, idn)"
| "species_for (species # rest) species_data idn =
     (case species_row idn species of
        Inl e \<Rightarrow> Inl e
      | Inr row \<Rightarrow> species_for rest (species_data @ [row]) (idn + 1))"

partial_function (option) species_loop ::
  "web \<Rightarrow> pyval \<Rightarrow> string list \<Rightarrow> pyval list list \<Rightarrow> int
    \<Rightarrow> (py_error + string list \<times> pyval list list \<times> int) option"
where
  "species_loop web api_url sent species_data idn =
     (if api_url = PNone then Some (Inr (sent, species_data, idn))
      else (case get_data web api_url sent of
              Inl e \<Rightarrow> Some (Inl e)
            | Inr (data, sent') \<Rightarrow>
                (case subscript data ''next'' of
                   Inl e \<Rightarrow> Some (Inl e)
                 | Inr next_url \<Rightarrow>
                     (case ebind (subscript data ''results'') py_iter of
                        Inl e \<Rightarrow> Some (Inl e)
                      | Inr specieses \<Rightarrow>
                          (case species_for specieses species_data idn of
                             Inl e \<Rightarrow> Some (Inl e)
                           | Inr (species_data', idn') \<Rightarrow>
                               species_loop web next_url sent' species_data' idn')))))"

definition species_header :: "pyval list" where
  "species_header = map PStr [''id'', ''name'', ''classification'', ''designation'',
     ''average_height'', ''average_lifespan'']"

definition species_extraction :: "web \<Rightarrow> (py_error + string list \<times> pyval list list) option" where
  "species_extraction web =
     (case species_loop web (PStr api_url_species) [] [] 1 of
        None \<Rightarrow> None
      | Some (Inl e) \<Rightarrow> Some (Inl e)
      | Some (Inr (sent, species_data, idn)) \<Rightarrow>
          Some (Inr (sent, species_header # remove_unkown species_data)))"

declare people_loop.simps [code]
declare planets_loop.simps [code]
declare species_loop.simps [code]

section \<open>Vocabulary of the properties\<close>

text \<open>What \<^verbatim>\<open>remove_unkown\<close> is expected to do to a single cell.\<close>

definition scrub :: "pyval \<Rightarrow> pyval" where
  "scrub v = (if is_sentinel v then PNone else v)"

text \<open>
  The loop invariant of the planets and the species loop: the counter is one more than
  the number of rows gathered, every row has six cells, and the first cell of the row at
  position \<open>k\<close> (counted from zero) is the integer \<open>k + 1\<close>.
\<close>

definition numbered :: "pyval list list \<Rightarrow> int \<Rightarrow> bool" where
  "numbered rows idn =
     (idn = int (length rows) + 1 \<and>
      (\<forall>k<length rows. length (rows ! k) = 6 \<and> rows ! k ! 0 = PInt (int k + 1)))"

text \<open>
  A chain of fetches: after \<open>n\<close> earlier requests and starting at \<open>api_url\<close>, each listed
  URL is a non-empty string that the service answers with the listed page, each page's
  \<^verbatim>\<open>next\<close> is the following URL, and the \<^verbatim>\<open>next\<close> of the last page is \<^verbatim>\<open>None\<close>.
\<close>

fun page_chain :: "web \<Rightarrow> nat \<Rightarrow> pyval \<Rightarrow> (string \<times> pyval) list \<Rightarrow> bool" where
  "page_chain web n api_url [] = (api_url = PNone)"
| "page_chain web n api_url ((u, page) # rest) =
     (api_url = PStr u \<and> u \<noteq> [] \<and> web n u = Inr page \<and>
      (case subscript page ''next'' of
         Inl e \<Rightarrow> False
       | Inr next_url \<Rightarrow> page_chain web (Suc n) next_url rest))"

section \<open>Sample services\<close>

text \<open>
  A service that answers from a table of pages, the same way at every request, and
  refuses every other URL.
\<close>

definition serve :: "(string \<times> pyval) list \<Rightarrow> web" where
  "serve pages n u = (case map_of pages u of None \<Rightarrow> Inl RequestException | Some page \<Rightarrow> Inr page)"

definition luke :: pyval where
  "luke = PDict [(''name'', PStr ''Luke Skywalker''), (''height'', PStr ''172''),
     (''mass'', PStr ''77''), (''eye_color'', PStr ''blue''), (''birth_year'', PStr ''19BBY''),
     (''gender'', PStr ''male''), (''homeworld'', PList [PStr ''https://x/1/'']),
     (''species'', PList [PStr ''https://x/species/1/''])]"

definition droid :: pyval where
  "droid = PDict [(''name'', PStr ''R4-P17''), (''height'', PStr ''96''),
     (''mass'', PStr ''unknown''), (''eye_color'', PStr ''red, blue''),
     (''birth_year'', PStr ''unknown''), (''gender'', PStr ''n/a''),
     (''homeworld'', PStr ''https://x/planets/28/''), (''species'', PList [])]"

definition people_page1 :: pyval where
  "people_page1 = PDict [(''next'', PStr ''https://x/people/?page=2''), (''results'', PList [luke])]"

definition people_page2 :: pyval where
  "people_page2 = PDict [(''next'', PNone), (''results'', PList [droid])]"

definition people_web :: web where
  "people_web = serve [(api_url_people, people_page1), (''https://x/people/?page=2'', people_page2)]"

text \<open>A listing whose only page has no \<^verbatim>\<open>next\<close> key.\<close>

definition page_without_next :: pyval where
  "page_without_next = PDict [(''count'', PInt 0), (''results'', PList [])]"

definition broken_web :: web where
  "broken_web = serve [(api_url_people, page_without_next)]"

text \<open>Planets and species whose source objects carry an \<^verbatim>\<open>id\<close> field of their own.\<close>

definition planets_pages :: "(string \<times> pyval) list" where
  "planets_pages =
     [(api_url_planets, PDict [(''next'', PStr ''https://x/planets/?page=2''), (''results'', PList
        [PDict [(''id'', PInt 99), (''name'', PStr ''Tatooine''), (''diameter'', PStr ''10465''),
           (''rotation_period'', PStr ''23''), (''population'', PStr ''200000''),
           (''surface_water'', PStr ''1'')],
         PDict [(''id'', PInt 7), (''name'', PStr ''Alderaan''), (''diameter'', PStr ''12500''),
           (''rotation_period'', PStr ''24''), (''population'', PStr ''2000000000''),
           (''surface_water'', PStr ''40'')]])]),
      (''https://x/planets/?page=2'', PDict [(''next'', PNone), (''results'', PList
        [PDict [(''id'', PInt 1), (''name'', PStr ''unknown''), (''diameter'', PStr ''0''),
           (''rotation_period'', PStr ''0''), (''population'', PStr ''unknown''),
           (''surface_water'', PStr ''unknown'')]])])]"

definition species_pages :: "(string \<times> pyval) list" where
  "species_pages =
     [(api_url_species, PDict [(''next'', PNone), (''results'', PList
        [PDict [(''id'', PInt 5), (''name'', PStr ''Hutt''), (''classification'', PStr ''gastropod''),
           (''designation'', PStr ''sentient''), (''average_height'', PStr ''300''),
           (''average_lifespan'', PStr ''1000'')],
         PDict [(''id'', PStr ''3''), (''name'', PStr ''Droid''), (''classification'', PStr ''artificial''),
           (''designation'', PStr ''sentient''), (''average_height'', PStr ''n/a''),
           (''average_lifespan'', PStr ''indefinite'')]])])]"

definition swapi_web :: web where
  "swapi_web = serve (planets_pages @ species_pages)"

text \<open>The rows of a completed extraction, and no rows for any other outcome.\<close>

definition the_rows :: "(py_error + string list \<times> pyval list list) option \<Rightarrow> pyval list list" where
  "the_rows r = (case r of Some (Inr (sent, rows)) \<Rightarrow> rows | _ \<Rightarrow> [])"

section \<open>Digits, integer conversion and the URL pattern\<close>

lemma is_digit_not_slash: "is_digit c \<Longrightarrow> c \<noteq> CHR ''/''"
  by (auto simp: is_digit_def)

lemma is_digit_not_newline: "is_digit c \<Longrightarrow> c \<noteq> CHR 0x0A"
  by (auto simp: is_digit_def)

lemma is_digit_not_us: "is_digit c \<Longrightarrow> c \<noteq> CHR ''_''"
  by (auto simp: is_digit_def)

lemma is_digit_not_sign: "is_digit c \<Longrightarrow> c \<noteq> CHR ''+'' \<and> c \<noteq> CHR ''-''"
  by (auto simp: is_digit_def)

lemma is_digit_not_int_space: "is_digit c \<Longrightarrow> \<not> int_space c"
  by (auto simp: is_digit_def int_space_def)

lemma not_digit_slash: "\<not> is_digit CHR ''/''"
  by (simp add: is_digit_def)

lemma match_here_sound:
  assumes "match_here s = Some g"
  shows "g \<noteq> [] \<and> list_all is_digit g \<and> (s = CHR ''/'' # g @ ''/'' \<or> s = CHR ''/'' # g @ [CHR ''/'', CHR 0x0A])"
proof (cases s)
  case Nil
  with assms show ?thesis by (simp add: match_here_def)
next
  case (Cons c r)
  let ?ds = "takeWhile is_digit r" and ?rest = "dropWhile is_digit r"
  from assms Cons have c: "c = CHR ''/''" and ne: "?ds \<noteq> []"
    and rest: "?rest = ''/'' \<or> ?rest = [CHR ''/'', CHR 0x0A]" and g: "g = ?ds"
    by (auto simp: match_here_def Let_def split: if_splits)
  have "r = ?ds @ ?rest" by simp
  with c g rest Cons have "s = CHR ''/'' # g @ ''/'' \<or> s = CHR ''/'' # g @ [CHR ''/'', CHR 0x0A]"
    by metis
  moreover have "list_all is_digit g"
    unfolding g list_all_iff by (auto dest: set_takeWhileD)
  ultimately show ?thesis using ne g by simp
qed

lemma match_here_exact:
  assumes "g \<noteq> []" "list_all is_digit g"
  shows "match_here (CHR ''/'' # g @ ''/'') = Some g"
proof -
  have all: "\<And>x. x \<in> set g \<Longrightarrow> is_digit x" using assms(2) by (simp add: list_all_iff)
  have "takeWhile is_digit (g @ ''/'') = g"
    by (simp add: takeWhile_append2 all not_digit_slash)
  moreover have "dropWhile is_digit (g @ ''/'') = ''/''"
    by (simp add: dropWhile_append2 all not_digit_slash)
  ultimately show ?thesis using assms(1) by (simp add: match_here_def)
qed

lemma match_here_early:
  assumes "is_digit d" "y \<noteq> []"
  shows "match_here (x # p @ CHR ''/'' # d # y) = None"
proof (cases "\<forall>c\<in>set p. is_digit c")
  case True
  then have "dropWhile is_digit (p @ CHR ''/'' # d # y) = CHR ''/'' # d # y"
    by (simp add: dropWhile_append2 not_digit_slash)
  then show ?thesis using assms by (simp add: match_here_def Let_def is_digit_not_newline)
next
  case False
  then obtain c where c: "c \<in> set p" "\<not> is_digit c" by blast
  then have eq: "dropWhile is_digit (p @ CHR ''/'' # d # y) = dropWhile is_digit p @ CHR ''/'' # d # y"
    by (simp add: dropWhile_append1)
  have "length (dropWhile is_digit (p @ CHR ''/'' # d # y)) \<ge> 3"
    unfolding eq using assms(2) by (cases y) simp_all
  then have "dropWhile is_digit (p @ CHR ''/'' # d # y) \<noteq> ''/''"
    and "dropWhile is_digit (p @ CHR ''/'' # d # y) \<noteq> [CHR ''/'', CHR 0x0A]"
    by auto
  then show ?thesis by (simp add: match_here_def Let_def)
qed

lemma re_search_sound:
  "re_search s = Some g \<Longrightarrow>
     g \<noteq> [] \<and> list_all is_digit g \<and>
     (\<exists>p. s = p @ CHR ''/'' # g @ ''/'' \<or> s = p @ CHR ''/'' # g @ [CHR ''/'', CHR 0x0A])"
proof (induction s)
  case Nil
  then show ?case by simp
next
  case (Cons c cs)
  show ?case
  proof (cases "match_here (c # cs)")
    case None
    with Cons.prems have "re_search cs = Some g" by simp
    from Cons.IH [OF this] obtain p where
      g: "g \<noteq> []" "list_all is_digit g"
      and p: "cs = p @ CHR ''/'' # g @ ''/'' \<or> cs = p @ CHR ''/'' # g @ [CHR ''/'', CHR 0x0A]"
      by blast
    from p have "c # cs = (c # p) @ CHR ''/'' # g @ ''/'' \<or> c # cs = (c # p) @ CHR ''/'' # g @ [CHR ''/'', CHR 0x0A]"
      by simp
    with g show ?thesis by blast
  next
    case (Some g')
    with Cons.prems have "g' = g" by simp
    with match_here_sound [OF Some] have
      "g \<noteq> []" "list_all is_digit g"
      "c # cs = [] @ CHR ''/'' # g @ ''/'' \<or> c # cs = [] @ CHR ''/'' # g @ [CHR ''/'', CHR 0x0A]"
      by simp_all
    then show ?thesis by blast
  qed
qed

lemma re_search_complete:
  assumes "g \<noteq> []" "list_all is_digit g"
  shows "re_search (p @ CHR ''/'' # g @ ''/'') = Some g"
proof (induction p)
  case Nil
  show ?case using match_here_exact [OF assms] by simp
next
  case (Cons x p)
  from assms obtain d g' where g: "g = d # g'" "is_digit d" by (cases g) auto
  have "match_here (x # p @ CHR ''/'' # d # (g' @ ''/'')) = None"
    by (rule match_here_early) (simp_all add: g)
  with Cons show ?case by (simp add: g)
qed

lemma strip_last_not_space:
  assumes "strip s = xs @ [c]"
  shows "\<not> py_isspace c"
proof -
  let ?t = "dropWhile py_isspace (rev (dropWhile py_isspace s))"
  from assms have "?t = c # rev xs"
    by (metis rev.simps(2) rev_rev_ident rev_swap strip_def)
  then show ?thesis
    by (metis hd_dropWhile list.sel(1) list.distinct(1))
qed

lemma not_double_us: "CHR ''_'' \<notin> set s \<Longrightarrow> \<not> double_us s"
  by (induction s rule: double_us.induct) auto

lemma py_int_all_digits:
  assumes "ds \<noteq> []" "list_all is_digit ds"
  shows "py_int ds = (if int_max_str_digits < length ds then None else Some (int (dec ds)))"
proof -
  from assms obtain d ds' where ds: "ds = d # ds'" and d: "is_digit d" by (cases ds) auto
  have all: "\<And>x. x \<in> set ds \<Longrightarrow> is_digit x" using assms(2) by (simp add: list_all_iff)
  have s1: "dropWhile int_space ds = ds" by (simp add: ds is_digit_not_int_space [OF d])
  have hd: "hd ds \<noteq> CHR ''+''" "hd ds \<noteq> CHR ''-''" "hd ds \<noteq> CHR ''_''"
    using is_digit_not_sign [OF d] is_digit_not_us [OF d] by (simp_all add: ds)
  have body: "takeWhile digit_or_us ds = ds" "dropWhile digit_or_us ds = []"
    using all by (simp_all add: digit_or_us_def)
  have "last ds \<in> set ds" using assms(1) by simp
  then have last: "last ds \<noteq> CHR ''_''" using all is_digit_not_us by blast
  have "CHR ''_'' \<notin> set ds" using all is_digit_not_us by blast
  then have nd: "\<not> double_us ds" by (rule not_double_us)
  have flt: "filter is_digit ds = ds" using all by (simp add: filter_id_conv)
  show ?thesis
    by (simp add: py_int_def Let_def s1 hd body last nd flt assms(1))
qed

lemma py_int_digits:
  assumes "ds \<noteq> []" "list_all is_digit ds" "length ds \<le> 4300"
  shows "py_int ds = Some (int (dec ds))"
  using py_int_all_digits [OF assms(1,2)] assms(3) by (simp add: int_max_str_digits_def)

lemma py_int_too_long:
  assumes "list_all is_digit ds" "4300 < length ds"
  shows "py_int ds = None"
proof -
  from assms(2) have "ds \<noteq> []" by auto
  from py_int_all_digits [OF this assms(1)] assms(2) show ?thesis
    by (simp add: int_max_str_digits_def)
qed

lemma dec_zeros: "dec (replicate n (CHR ''0'')) = 0"
proof -
  have "foldl (\<lambda>a c. 10 * a + digit_val c) 0 (replicate n (CHR ''0'')) = 0"
    by (induction n) (simp_all add: digit_val_def)
  then show ?thesis by (simp add: dec_def)
qed

lemma zeros_digits: "list_all is_digit (replicate n (CHR ''0''))"
  by (simp add: list_all_iff is_digit_def)

section \<open>Ages\<close>

lemma endswith_append_same: "length t = length x \<Longrightarrow> endswith (p @ t) x = (t = x)"
  by (auto simp: endswith_def)

lemma lower_append: "lower (p @ t) = lower p @ lower t"
  by (simp add: lower_def)

lemma lower_BBY: "lower ''BBY'' = ''bby''" "lower ''ABY'' = ''aby''"
  by code_simp+

lemma not_unknown_BBY: "lower (p @ ''BBY'') \<noteq> ''unknown''" "lower (p @ ''ABY'') \<noteq> ''unknown''"
proof -
  have "drop (length (lower p)) (lower p @ ''bby'') \<noteq> drop (length (lower p)) ''unknown''"
    "drop (length (lower p)) (lower p @ ''aby'') \<noteq> drop (length (lower p)) ''unknown''"
    by (auto simp: drop_Cons' )
  then show "lower (p @ ''BBY'') \<noteq> ''unknown''" "lower (p @ ''ABY'') \<noteq> ''unknown''"
    by (auto simp: lower_append lower_BBY)
qed

lemma calculate_age_BBY:
  "calculate_age (PStr (p @ ''BBY'')) r =
     (case py_int p of Some n \<Rightarrow> Inr (PInt (r + n)) | None \<Rightarrow> Inr PNone)"
  by (simp add: calculate_age_def not_unknown_BBY endswith_append_same)

lemma calculate_age_ABY:
  "calculate_age (PStr (p @ ''ABY'')) r =
     (case py_int p of Some n \<Rightarrow> Inr (PInt (r - n)) | None \<Rightarrow> Inr PNone)"
  by (simp add: calculate_age_def not_unknown_BBY endswith_append_same)

lemma calculate_age_other:
  "\<not> endswith s ''BBY'' \<Longrightarrow> \<not> endswith s ''ABY'' \<Longrightarrow> calculate_age (PStr s) r = Inr PNone"
  by (simp add: calculate_age_def)

lemma calculate_age_unknown:
  "lower s = ''unknown'' \<Longrightarrow> calculate_age (PStr s) r = Inr PNone"
  by (simp add: calculate_age_def)

lemma calculate_age_total: "\<exists>v. calculate_age (PStr s) r = Inr v"
  by (simp add: calculate_age_def split: option.splits)

lemma py_int_no_digit:
  assumes "\<not> (\<exists>c\<in>set p. is_digit c)"
  shows "py_int p = None"
proof -
  define s1 where "s1 = dropWhile int_space p"
  define s2 where "s2 = (if s1 \<noteq> [] \<and> (hd s1 = CHR ''+'' \<or> hd s1 = CHR ''-'') then tl s1 else s1)"
  define body where "body = takeWhile digit_or_us s2"
  have "set s1 \<subseteq> set p" unfolding s1_def by (auto dest: set_dropWhileD)
  moreover have "set s2 \<subseteq> set s1" unfolding s2_def by (auto dest: list.set_sel(2))
  ultimately have sub: "set s2 \<subseteq> set p" by blast
  have "body = [] \<or> hd body = CHR ''_''"
  proof (cases "body = []")
    case False
    then have "hd body \<in> set body" by simp
    then have "hd body \<in> set s2" "digit_or_us (hd body)"
      unfolding body_def by (auto dest: set_takeWhileD)
    with sub assms show ?thesis by (auto simp: digit_or_us_def)
  qed simp
  then show ?thesis
    unfolding py_int_def Let_def s1_def [symmetric] s2_def [symmetric] body_def [symmetric]
    by auto
qed

text \<open>
  Claim C4 as stated fails: a prefix of 4301 zeros is numeric and has the value 0, so the
  claim asks for the age 34, but \<^verbatim>\<open>int\<close> rejects a literal of that length, the
  \<^verbatim>\<open>ValueError\<close> is caught, and the result is \<^verbatim>\<open>None\<close>.
\<close>

theorem calculate_age_digit_limit:
  "calculate_age (PStr (replicate 4301 (CHR ''0'') @ ''BBY'')) 34 = Inr PNone
   \<and> calculate_age (PStr (replicate 4301 (CHR ''0'') @ ''BBY'')) 34
       \<noteq> Inr (PInt (34 + int (dec (replicate 4301 (CHR ''0'')))))"
proof -
  have "py_int (replicate 4301 (CHR ''0'')) = None"
    by (rule py_int_too_long) (simp_all add: zeros_digits)
  then show ?thesis by (simp add: calculate_age_BBY)
qed

text \<open>
  Claim C4, as amended. With the default reference year 34, \<^verbatim>\<open>calculate_age\<close> returns
  \<^verbatim>\<open>None\<close> for an absent birth year and for every spelling of \<^verbatim>\<open>unknown\<close> in upper or
  lower case; for a string with suffix \<^verbatim>\<open>BBY\<close> whose prefix \<^verbatim>\<open>int\<close> reads as \<open>n\<close> it
  returns \<open>34 + n\<close>, and with suffix \<^verbatim>\<open>ABY\<close> it returns \<open>34 - n\<close>; in particular a prefix
  of at most 4300 decimal digits is read as its decimal value. A prefix that \<^verbatim>\<open>int\<close>
  rejects gives \<^verbatim>\<open>None\<close>: any prefix without a digit is one, and so is any prefix of more
  than 4300 digits. Every string with neither suffix gives \<^verbatim>\<open>None\<close>. No string makes the
  function raise.
\<close>

theorem calculate_age_spec:
  "calculate_age PNone 34 = Inr PNone
   \<and> (lower s = ''unknown'' \<longrightarrow> calculate_age (PStr s) 34 = Inr PNone)
   \<and> (py_int p = Some n \<longrightarrow>
        calculate_age (PStr (p @ ''BBY'')) 34 = Inr (PInt (34 + n))
        \<and> calculate_age (PStr (p @ ''ABY'')) 34 = Inr (PInt (34 - n)))
   \<and> (ds \<noteq> [] \<and> list_all is_digit ds \<and> length ds \<le> 4300 \<longrightarrow>
        calculate_age (PStr (ds @ ''BBY'')) 34 = Inr (PInt (34 + int (dec ds)))
        \<and> calculate_age (PStr (ds @ ''ABY'')) 34 = Inr (PInt (34 - int (dec ds))))
   \<and> (py_int p = None \<longrightarrow>
        calculate_age (PStr (p @ ''BBY'')) 34 = Inr PNone
        \<and> calculate_age (PStr (p @ ''ABY'')) 34 = Inr PNone)
   \<and> (\<not> (\<exists>c\<in>set p. is_digit c) \<longrightarrow> py_int p = None)
   \<and> (list_all is_digit ds \<and> 4300 < length ds \<longrightarrow>
        calculate_age (PStr (ds @ ''BBY'')) 34 = Inr PNone
        \<and> calculate_age (PStr (ds @ ''ABY'')) 34 = Inr PNone)
   \<and> (\<not> endswith s ''BBY'' \<and> \<not> endswith s ''ABY'' \<longrightarrow> calculate_age (PStr s) 34 = Inr PNone)
   \<and> (\<exists>v. calculate_age (PStr s) 34 = Inr v)"
proof -
  have a: "calculate_age PNone 34 = Inr PNone" by (simp add: calculate_age_def)
  have b: "lower s = ''unknown'' \<longrightarrow> calculate_age (PStr s) 34 = Inr PNone"
    using calculate_age_unknown [of s 34] by blast
  have c: "py_int p = Some n \<longrightarrow>
        calculate_age (PStr (p @ ''BBY'')) 34 = Inr (PInt (34 + n))
        \<and> calculate_age (PStr (p @ ''ABY'')) 34 = Inr (PInt (34 - n))"
    by (simp add: calculate_age_BBY calculate_age_ABY)
  have d: "ds \<noteq> [] \<and> list_all is_digit ds \<and> length ds \<le> 4300 \<longrightarrow>
        calculate_age (PStr (ds @ ''BBY'')) 34 = Inr (PInt (34 + int (dec ds)))
        \<and> calculate_age (PStr (ds @ ''ABY'')) 34 = Inr (PInt (34 - int (dec ds)))"
    using py_int_digits [of ds] by (auto simp: calculate_age_BBY calculate_age_ABY)
  have e: "py_int p = None \<longrightarrow>
        calculate_age (PStr (p @ ''BBY'')) 34 = Inr PNone
        \<and> calculate_age (PStr (p @ ''ABY'')) 34 = Inr PNone"
    by (simp add: calculate_age_BBY calculate_age_ABY)
  have f: "\<not> (\<exists>c\<in>set p. is_digit c) \<longrightarrow> py_int p = None"
    using py_int_no_digit [of p] by blast
  have g: "list_all is_digit ds \<and> 4300 < length ds \<longrightarrow>
        calculate_age (PStr (ds @ ''BBY'')) 34 = Inr PNone
        \<and> calculate_age (PStr (ds @ ''ABY'')) 34 = Inr PNone"
    using py_int_too_long [of ds] by (auto simp: calculate_age_BBY calculate_age_ABY)
  have h: "\<not> endswith s ''BBY'' \<and> \<not> endswith s ''ABY'' \<longrightarrow> calculate_age (PStr s) 34 = Inr PNone"
    using calculate_age_other [of s 34] by blast
  have i: "\<exists>v. calculate_age (PStr s) 34 = Inr v" by (rule calculate_age_total)
  show ?thesis by (intro conjI) (fact a b c d e f g h i)+
qed

text \<open>The examples of claim C4, and a prefix of 4301 nines, obtained from the theorem.\<close>

theorem calculate_age_spec_witness:
  "calculate_age (PStr ''19BBY'') 34 = Inr (PInt 53)
   \<and> calculate_age (PStr ''41ABY'') 34 = Inr (PInt (- 7))
   \<and> calculate_age (PStr ''unknown'') 34 = Inr PNone
   \<and> calculate_age (PStr ''UNKNOWN'') 34 = Inr PNone
   \<and> calculate_age (PStr ''abcBBY'') 34 = Inr PNone
   \<and> calculate_age (PStr ''19XYZ'') 34 = Inr PNone
   \<and> calculate_age (PStr (replicate 4301 (CHR ''9'') @ ''ABY'')) 34 = Inr PNone"
proof -
  have d19: "''19'' \<noteq> [] \<and> list_all is_digit ''19'' \<and> length ''19'' \<le> 4300"
    and v19: "dec ''19'' = 19"
    and d41: "''41'' \<noteq> [] \<and> list_all is_digit ''41'' \<and> length ''41'' \<le> 4300"
    and v41: "dec ''41'' = 41"
    and abc: "\<not> (\<exists>c\<in>set ''abc''. is_digit c)"
    and low: "lower ''unknown'' = ''unknown''" "lower ''UNKNOWN'' = ''unknown''"
    and xyz: "\<not> endswith ''19XYZ'' ''BBY'' \<and> \<not> endswith ''19XYZ'' ''ABY''"
    by code_simp+
  have nines: "list_all is_digit (replicate 4301 (CHR ''9'')) \<and> 4300 < length (replicate 4301 (CHR ''9''))"
    by (simp add: list_all_iff is_digit_def)
  note a = calculate_age_spec [where s = "''unknown''" and p = "''abc''" and ds = "''19''"]
  note b = calculate_age_spec [where s = "''UNKNOWN''" and p = "''abc''" and ds = "''41''"]
  note c = calculate_age_spec [where s = "''19XYZ''" and p = "''abc''"
      and ds = "replicate 4301 (CHR ''9'')"]
  from a d19 v19 low(1) abc
  have 1: "calculate_age (PStr ''19BBY'') 34 = Inr (PInt 53)"
    "calculate_age (PStr ''unknown'') 34 = Inr PNone"
    "calculate_age (PStr ''abcBBY'') 34 = Inr PNone"
    by simp_all
  from b d41 v41 low(2)
  have 2: "calculate_age (PStr ''41ABY'') 34 = Inr (PInt (- 7))"
    "calculate_age (PStr ''UNKNOWN'') 34 = Inr PNone"
    by simp_all
  from c xyz nines
  have 3: "calculate_age (PStr ''19XYZ'') 34 = Inr PNone"
    "calculate_age (PStr (replicate 4301 (CHR ''9'') @ ''ABY'')) 34 = Inr PNone"
    by blast+
  from 1 2 3 show ?thesis by simp
qed

text \<open>
  Claim C10. The era suffix is matched with case: a string whose last three characters
  are \<^verbatim>\<open>bby\<close> or \<^verbatim>\<open>aby\<close> in some mix of cases other than all capitals gives \<^verbatim>\<open>None\<close>,
  whatever stands before them; the token \<^verbatim>\<open>unknown\<close>, however, is recognised in any mix
  of cases.
\<close>

theorem calculate_age_case_sensitive:
  "(lower t \<in> {''bby'', ''aby''} \<and> t \<notin> {''BBY'', ''ABY''} \<longrightarrow>
      calculate_age (PStr (p @ t)) r = Inr PNone)
   \<and> (lower s = ''unknown'' \<longrightarrow> calculate_age (PStr s) r = Inr PNone)"
proof -
  have "calculate_age (PStr (p @ t)) r = Inr PNone"
    if low: "lower t \<in> {''bby'', ''aby''}" and up: "t \<notin> {''BBY'', ''ABY''}"
  proof -
    from low have "length (lower t) = 3" by auto
    then have len: "length t = 3" by (simp add: lower_def)
    from len up have "\<not> endswith (p @ t) ''BBY''" "\<not> endswith (p @ t) ''ABY''"
      by (simp_all add: endswith_append_same)
    then show ?thesis by (rule calculate_age_other)
  qed
  then show ?thesis using calculate_age_unknown [of s r] by blast
qed

theorem calculate_age_case_sensitive_witness:
  "calculate_age (PStr ''19bby'') 34 = Inr PNone
   \<and> calculate_age (PStr ''7aby'') 34 = Inr PNone
   \<and> calculate_age (PStr ''7Bby'') 34 = Inr PNone
   \<and> calculate_age (PStr ''UnKnOwN'') 34 = Inr PNone"
proof -
  have l: "lower ''bby'' \<in> {''bby'', ''aby''} \<and> ''bby'' \<notin> {''BBY'', ''ABY''}"
    "lower ''aby'' \<in> {''bby'', ''aby''} \<and> ''aby'' \<notin> {''BBY'', ''ABY''}"
    "lower ''Bby'' \<in> {''bby'', ''aby''} \<and> ''Bby'' \<notin> {''BBY'', ''ABY''}"
    "lower ''UnKnOwN'' = ''unknown''"
    by code_simp+
  show ?thesis
    using calculate_age_case_sensitive [of "''bby''" "''19''" 34 "''UnKnOwN''"]
      calculate_age_case_sensitive [of "''aby''" "''7''" 34 "''UnKnOwN''"]
      calculate_age_case_sensitive [of "''Bby''" "''7''" 34 "''UnKnOwN''"] l
    by auto
qed

section \<open>Reference ids, sentinel removal and masses\<close>

lemma py_isspace_newline: "py_isspace (CHR 0x0A)"
  by (simp add: py_isspace_def)

lemma extract_id_match:
  assumes "ds \<noteq> []" "list_all is_digit ds" "strip s = p @ ''/'' @ ds @ ''/''"
  shows "extract_id (PStr s) =
    (if 4300 < length ds then Inl ValueError else Inr (PInt (int (dec ds))))"
proof -
  from assms(3) have ne: "s \<noteq> []" by (auto simp: strip_def)
  have "re_search (strip s) = Some ds"
    using re_search_complete [OF assms(1,2), of p] assms(3) by simp
  then show ?thesis
    using ne py_int_all_digits [OF assms(1,2)]
    by (simp add: extract_id_def int_max_str_digits_def)
qed

lemma extract_id_no_match:
  assumes "\<forall>p ds. ds \<noteq> [] \<and> list_all is_digit ds \<longrightarrow> strip s \<noteq> p @ ''/'' @ ds @ ''/''"
  shows "extract_id (PStr s) = Inr PNone"
proof (cases "re_search (strip s)")
  case None
  then show ?thesis by (simp add: extract_id_def)
next
  case (Some g)
  from re_search_sound [OF Some] obtain p where g: "g \<noteq> []" "list_all is_digit g"
    and p: "strip s = p @ CHR ''/'' # g @ ''/'' \<or> strip s = p @ CHR ''/'' # g @ [CHR ''/'', CHR 0x0A]"
    by blast
  from p show ?thesis
  proof
    assume "strip s = p @ CHR ''/'' # g @ ''/''"
    with assms g show ?thesis by auto
  next
    assume "strip s = p @ CHR ''/'' # g @ [CHR ''/'', CHR 0x0A]"
    then have "strip s = (p @ CHR ''/'' # g @ ''/'') @ [CHR 0x0A]" by simp
    from strip_last_not_space [OF this] py_isspace_newline show ?thesis by simp
  qed
qed

lemma strip_slashes: "strip (CHR ''/'' # ds @ ''/'') = CHR ''/'' # ds @ ''/''"
  by (simp add: strip_def py_isspace_def)

text \<open>
  What \<^verbatim>\<open>extract_id\<close> does on every input that is \<^verbatim>\<open>None\<close>, a string, or a list whose
  first element is a string. It returns \<^verbatim>\<open>None\<close> for the empty list, looks only at the
  first element of a list, and returns \<^verbatim>\<open>None\<close> for \<^verbatim>\<open>None\<close> and for the empty string.
  When the string, with surrounding whitespace removed, ends in a slash, a non-empty run
  of digits and a slash, the result is the decimal value of the digits if there are at
  most 4300 of them, and the \<^verbatim>\<open>ValueError\<close> of \<^verbatim>\<open>int\<close> if there are more; when the string
  does not end so, the result is \<^verbatim>\<open>None\<close>.
\<close>

lemma extract_id_cases:
  "extract_id (PList []) = Inr PNone
   \<and> extract_id (PList (PStr s # others)) = extract_id (PStr s)
   \<and> extract_id PNone = Inr PNone
   \<and> extract_id (PStr []) = Inr PNone
   \<and> (ds \<noteq> [] \<and> list_all is_digit ds \<and> length ds \<le> 4300 \<and> strip s = p @ ''/'' @ ds @ ''/'' \<longrightarrow>
        extract_id (PStr s) = Inr (PInt (int (dec ds))))
   \<and> (list_all is_digit ds \<and> 4300 < length ds \<and> strip s = p @ ''/'' @ ds @ ''/'' \<longrightarrow>
        extract_id (PStr s) = Inl ValueError)
   \<and> ((\<forall>p ds. ds \<noteq> [] \<and> list_all is_digit ds \<longrightarrow> strip s \<noteq> p @ ''/'' @ ds @ ''/'') \<longrightarrow>
        extract_id (PStr s) = Inr PNone)"
proof -
  have a: "extract_id (PList []) = Inr PNone" by (simp add: extract_id_def)
  have b: "extract_id (PList (PStr s # others)) = extract_id (PStr s)" by (simp add: extract_id_def)
  have c: "extract_id PNone = Inr PNone" "extract_id (PStr []) = Inr PNone"
    by (simp_all add: extract_id_def)
  have e: "ds \<noteq> [] \<and> list_all is_digit ds \<and> length ds \<le> 4300 \<and> strip s = p @ ''/'' @ ds @ ''/'' \<longrightarrow>
      extract_id (PStr s) = Inr (PInt (int (dec ds)))"
    using extract_id_match [of ds s p] by auto
  have f: "list_all is_digit ds \<and> 4300 < length ds \<and> strip s = p @ ''/'' @ ds @ ''/'' \<longrightarrow>
      extract_id (PStr s) = Inl ValueError"
    using extract_id_match [of ds s p] by (cases ds) auto
  have g: "(\<forall>p ds. ds \<noteq> [] \<and> list_all is_digit ds \<longrightarrow> strip s \<noteq> p @ ''/'' @ ds @ ''/'') \<longrightarrow>
      extract_id (PStr s) = Inr PNone"
    using extract_id_no_match [of s] by blast
  show ?thesis by (intro conjI) (fact a b c e f g)+
qed

lemma extract_id_examples:
  "extract_id (PList [PStr ''https://x/9/'']) = Inr (PInt 9)
   \<and> extract_id (PStr '' https://swapi.py4e.com/api/planets/28/  '') = Inr (PInt 28)
   \<and> extract_id (PStr ''https://x/9'') = Inr PNone"
  by code_simp

text \<open>
  Claim C5 does not hold of the code. The string made of a slash, 4301 zeros and a slash
  matches the pattern and its digits have the value 0, so the claim asks for the integer
  0. \<^verbatim>\<open>int\<close> rejects a literal of that length, and \<^verbatim>\<open>extract_id\<close>, unlike
  \<^verbatim>\<open>calculate_age\<close>, does not catch the \<^verbatim>\<open>ValueError\<close>: the call raises, alone or as the
  first element of a list.
\<close>

theorem extract_id_digit_limit:
  "extract_id (PStr (CHR ''/'' # replicate 4301 (CHR ''0'') @ ''/'')) = Inl ValueError
   \<and> extract_id (PList [PStr (CHR ''/'' # replicate 4301 (CHR ''0'') @ ''/'')]) = Inl ValueError
   \<and> dec (replicate 4301 (CHR ''0'')) = 0"
proof -
  have "strip (CHR ''/'' # replicate 4301 (CHR ''0'') @ ''/'')
      = [] @ ''/'' @ replicate 4301 (CHR ''0'') @ ''/''"
    by (simp add: strip_slashes)
  from extract_id_match [OF _ zeros_digits this]
  have "extract_id (PStr (CHR ''/'' # replicate 4301 (CHR ''0'') @ ''/'')) = Inl ValueError"
    by simp
  moreover have "extract_id (PList [PStr (CHR ''/'' # replicate 4301 (CHR ''0'') @ ''/'')])
      = extract_id (PStr (CHR ''/'' # replicate 4301 (CHR ''0'') @ ''/''))"
    by (simp add: extract_id_def)
  ultimately show ?thesis by (simp add: dec_zeros)
qed

lemma remove_unkown_row_prefix:
  "n \<le> length row \<Longrightarrow>
     fold (\<lambda>i r. if is_sentinel (r ! i) then r[i := PNone] else r) [0..<n] row =
       map scrub (take n row) @ drop n row"
proof (induction n)
  case 0
  then show ?case by simp
next
  case (Suc n)
  then have n: "n < length row" by simp
  have d: "drop n row = row ! n # drop (Suc n) row"
    using n by (simp add: Cons_nth_drop_Suc)
  let ?mid = "map scrub (take n row) @ drop n row"
  have nth: "?mid ! n = row ! n" using n by (simp add: nth_append)
  have upd: "?mid[n := PNone] = map scrub (take n row) @ PNone # drop (Suc n) row"
    using n by (simp add: list_update_append d)
  have keep: "?mid = map scrub (take n row) @ row ! n # drop (Suc n) row"
    by (simp add: d)
  have tk: "map scrub (take (Suc n) row) = map scrub (take n row) @ [scrub (row ! n)]"
    using n by (simp add: take_Suc_conv_app_nth)
  have "fold (\<lambda>i r. if is_sentinel (r ! i) then r[i := PNone] else r) [0..<Suc n] row =
      (if is_sentinel (?mid ! n) then ?mid[n := PNone] else ?mid)"
    using Suc.IH n by simp
  also have "\<dots> = map scrub (take n row) @ scrub (row ! n) # drop (Suc n) row"
    unfolding nth upd using keep by (simp add: scrub_def)
  finally show ?case by (simp add: tk)
qed

lemma remove_unkown_row_map: "remove_unkown_row row = map scrub row"
  using remove_unkown_row_prefix [of "length row" row] by (simp add: remove_unkown_row_def)

lemma remove_unkown_map: "remove_unkown data = map (map scrub) data"
  by (simp add: remove_unkown_def remove_unkown_row_map)

text \<open>
  Claim C7. \<^verbatim>\<open>remove_unkown\<close> keeps the number of rows, their order and the length of
  every row; a cell equal to one of the strings \<^verbatim>\<open>unknown\<close>, \<^verbatim>\<open>none\<close>, \<^verbatim>\<open>n/a\<close> becomes
  \<^verbatim>\<open>None\<close>, and every other cell is unchanged.
\<close>

theorem remove_unkown_frame:
  "length (remove_unkown data) = length data
   \<and> (\<forall>r<length data. length (remove_unkown data ! r) = length (data ! r)
        \<and> (\<forall>i<length (data ! r).
              remove_unkown data ! r ! i =
                (if data ! r ! i = PStr ''unknown'' \<or> data ! r ! i = PStr ''none''
                    \<or> data ! r ! i = PStr ''n/a''
                 then PNone else data ! r ! i)))"
  by (simp add: remove_unkown_map scrub_def is_sentinel_def)

theorem remove_unkown_frame_witness:
  "length (remove_unkown [[PStr ''Luke'', PStr ''unknown'', PInt 3], [PStr ''n/a'', PStr ''None'']]) = 2
   \<and> length (remove_unkown [[PStr ''Luke'', PStr ''unknown'', PInt 3], [PStr ''n/a'', PStr ''None'']] ! 0) = 3
   \<and> remove_unkown [[PStr ''Luke'', PStr ''unknown'', PInt 3], [PStr ''n/a'', PStr ''None'']] ! 0 ! 0 = PStr ''Luke''
   \<and> remove_unkown [[PStr ''Luke'', PStr ''unknown'', PInt 3], [PStr ''n/a'', PStr ''None'']] ! 0 ! 1 = PNone
   \<and> remove_unkown [[PStr ''Luke'', PStr ''unknown'', PInt 3], [PStr ''n/a'', PStr ''None'']] ! 0 ! 2 = PInt 3
   \<and> remove_unkown [[PStr ''Luke'', PStr ''unknown'', PInt 3], [PStr ''n/a'', PStr ''None'']] ! 1 ! 0 = PNone
   \<and> remove_unkown [[PStr ''Luke'', PStr ''unknown'', PInt 3], [PStr ''n/a'', PStr ''None'']] ! 1 ! 1 = PStr ''None''"
  using remove_unkown_frame [of "[[PStr ''Luke'', PStr ''unknown'', PInt 3], [PStr ''n/a'', PStr ''None'']]"]
  by simp

lemma replace_map: "replace old new s = map (\<lambda>c. if c = old then new else c) s"
  by (induction s) simp_all

lemma process_mass_str:
  "s \<notin> {''unknown'', ''none'', ''n/a''} \<Longrightarrow>
     process_mass (PStr s) = Inr (PStr (replace (CHR '','') (CHR ''.'') s))"
  by (simp add: process_mass_def is_sentinel_def)

text \<open>
  Claim C8. \<^verbatim>\<open>process_mass\<close> returns the three tokens \<^verbatim>\<open>unknown\<close>, \<^verbatim>\<open>none\<close> and \<^verbatim>\<open>n/a\<close>
  unchanged. Any other string keeps its length, and position by position a comma
  becomes a period while every other character stays as it is.
\<close>

theorem process_mass_spec:
  "process_mass (PStr ''unknown'') = Inr (PStr ''unknown'')
   \<and> process_mass (PStr ''none'') = Inr (PStr ''none'')
   \<and> process_mass (PStr ''n/a'') = Inr (PStr ''n/a'')
   \<and> (s \<notin> {''unknown'', ''none'', ''n/a''} \<longrightarrow>
        (\<exists>t. process_mass (PStr s) = Inr (PStr t) \<and> length t = length s
           \<and> (\<forall>i<length s. t ! i = (if s ! i = CHR '','' then CHR ''.'' else s ! i))))"
  using process_mass_str [of s]
  by (simp add: process_mass_def is_sentinel_def replace_map)

theorem process_mass_spec_witness:
  "process_mass (PStr ''84,5'') = Inr (PStr ''84.5'')"
proof -
  have "''84,5'' \<notin> {''unknown'', ''none'', ''n/a''}" by simp
  with process_mass_spec [of "''84,5''"] obtain t where
    t: "process_mass (PStr ''84,5'') = Inr (PStr t)" "length t = 4"
      "\<forall>i<4. t ! i = (if ''84,5'' ! i = CHR '','' then CHR ''.'' else ''84,5'' ! i)"
    by auto
  from t(3) have "t ! 0 = CHR ''8''" "t ! 1 = CHR ''4''" "t ! 2 = CHR ''.''" "t ! 3 = CHR ''5''"
    by simp_all
  with t(2) have "t = ''84.5''"
    by (simp add: list_eq_iff_nth_eq less_Suc_eq numeral_eq_Suc)
  with t(1) show ?thesis by simp
qed

text \<open>
  Claim C9. For a string that is none of the three tokens, \<^verbatim>\<open>process_mass\<close> replaces
  every comma, however many there are: the result is the string with each comma turned
  into a period, and no comma is left in it.
\<close>

theorem process_mass_every_comma:
  "s \<notin> {''unknown'', ''none'', ''n/a''} \<longrightarrow>
     process_mass (PStr s) = Inr (PStr (map (\<lambda>c. if c = CHR '','' then CHR ''.'' else c) s))
     \<and> CHR '','' \<notin> set (map (\<lambda>c. if c = CHR '','' then CHR ''.'' else c) s)"
  using process_mass_str [of s] by (auto simp: replace_map)

theorem process_mass_every_comma_witness:
  "process_mass (PStr ''1,234,5'') = Inr (PStr ''1.234.5'')
   \<and> process_mass (PStr ''1,358'') = Inr (PStr ''1.358'')"
  using process_mass_every_comma [of "''1,234,5''"] process_mass_every_comma [of "''1,358''"]
  by simp

section \<open>The pagination loop\<close>

lemma people_for_append:
  "people_for (xs @ ys) acc =
     (case people_for xs acc of Inl e \<Rightarrow> Inl e | Inr acc' \<Rightarrow> people_for ys acc')"
  by (induction xs arbitrary: acc) (simp_all split: sum.splits)

lemma people_for_rows:
  "people_for recs acc = Inr data \<Longrightarrow>
     \<exists>rows. data = acc @ rows \<and> length rows = length recs
       \<and> (\<forall>i<length recs. people_row (recs ! i) = Inr (rows ! i))"
proof (induction recs arbitrary: acc)
  case Nil
  then show ?case by simp
next
  case (Cons r recs)
  from Cons.prems obtain row where row: "people_row r = Inr row"
    and rest: "people_for recs (acc @ [row]) = Inr data"
    by (auto split: sum.splits)
  from Cons.IH [OF rest] obtain rows where rows: "data = (acc @ [row]) @ rows"
    "length rows = length recs" "\<forall>i<length recs. people_row (recs ! i) = Inr (rows ! i)"
    by blast
  have "\<forall>i<length (r # recs). people_row ((r # recs) ! i) = Inr ((row # rows) ! i)"
    using row rows(3) by (auto simp: nth_Cons')
  with rows(1,2) show ?case
    by (intro exI [of _ "row # rows"]) simp
qed

lemma people_loop_stop: "people_loop web PNone sent acc = Some (Inr (sent, acc))"
  by (subst people_loop.simps) simp

lemma people_loop_step:
  assumes "u \<noteq> []" "web (length sent) u = Inr page" "subscript page ''next'' = Inr next_url"
    and "subscript page ''results'' = Inr (PList recs)" "people_for recs acc = Inr acc'"
  shows "people_loop web (PStr u) sent acc = people_loop web next_url (sent @ [u]) acc'"
  by (subst people_loop.simps) (simp add: assms get_data_def ebind_def)

lemma people_loop_chain:
  assumes "page_chain web (length sent) api_url fetches"
    and "list_all2 (\<lambda>(u, page) recs. subscript page ''results'' = Inr (PList recs)) fetches recss"
    and "people_for (concat recss) acc = Inr data"
  shows "people_loop web api_url sent acc = Some (Inr (sent @ map fst fetches, data))"
  using assms
proof (induction fetches arbitrary: api_url recss acc sent)
  case Nil
  then show ?case by (simp add: people_loop_stop)
next
  case (Cons f fetches)
  obtain u page where f: "f = (u, page)" by (cases f)
  from Cons.prems(1) f obtain next_url where
    u: "api_url = PStr u" "u \<noteq> []" "web (length sent) u = Inr page"
    and nxt: "subscript page ''next'' = Inr next_url"
    and chain: "page_chain web (length (sent @ [u])) next_url fetches"
    by (auto split: sum.splits)
  from Cons.prems(2) f obtain recs recss' where
    recss: "recss = recs # recss'"
    and res: "subscript page ''results'' = Inr (PList recs)"
    and rest: "list_all2 (\<lambda>(u, page) recs. subscript page ''results'' = Inr (PList recs)) fetches recss'"
    by (auto simp: list_all2_Cons1)
  from Cons.prems(3) recss obtain acc' where
    acc': "people_for recs acc = Inr acc'" and data: "people_for (concat recss') acc' = Inr data"
    by (auto simp: people_for_append split: sum.splits)
  have "people_loop web api_url sent acc = people_loop web next_url (sent @ [u]) acc'"
    unfolding u(1) using u(2,3) nxt res acc'
    by (rule people_loop_step [where u = u and web = web and page = page])
  also have "\<dots> = Some (Inr ((sent @ [u]) @ map fst fetches, data))"
    by (rule Cons.IH [OF chain rest data])
  finally show ?case by (simp add: f)
qed

lemma people_loop_missing_next:
  assumes "u \<noteq> []" "web (length sent) u = Inr (PDict d)" "map_of d ''next'' = None"
  shows "people_loop web (PStr u) sent acc = Some (Inl KeyError)"
  by (subst people_loop.simps) (simp add: assms get_data_def)

lemma people_loop_chain_returns:
  assumes "page_chain web (length sent) api_url fetches"
  shows "\<exists>r. people_loop web api_url sent acc = Some r"
  using assms
proof (induction fetches arbitrary: api_url sent acc)
  case Nil
  then show ?case by (simp add: people_loop_stop)
next
  case (Cons f fetches)
  obtain u page where f: "f = (u, page)" by (cases f)
  from Cons.prems f obtain next_url where
    u: "api_url = PStr u" "u \<noteq> []" "web (length sent) u = Inr page"
    and nxt: "subscript page ''next'' = Inr next_url"
    and chain: "page_chain web (length (sent @ [u])) next_url fetches"
    by (auto split: sum.splits)
  show ?case
  proof (cases "ebind (subscript page ''results'') py_iter")
    case (Inl e)
    have "people_loop web api_url sent acc = Some (Inl e)"
      by (subst people_loop.simps) (simp add: u nxt Inl get_data_def)
    then show ?thesis by blast
  next
    case (Inr persons)
    show ?thesis
    proof (cases "people_for persons acc")
      case (Inl e)
      have "people_loop web api_url sent acc = Some (Inl e)"
        by (subst people_loop.simps) (simp add: u nxt Inr Inl get_data_def)
      then show ?thesis by blast
    next
      case acc': (Inr acc')
      have "people_loop web api_url sent acc = people_loop web next_url (sent @ [u]) acc'"
        by (subst people_loop.simps) (simp add: u nxt Inr acc' get_data_def)
      with Cons.IH [OF chain] show ?thesis by simp
    qed
  qed
qed

text \<open>
  Claim C3. Let the service answer a chain of fetches that starts at the start URL and
  whose last page has \<^verbatim>\<open>next\<close> equal to \<^verbatim>\<open>None\<close>. Then the people loop ends, with rows or
  with an exception raised by a page's content. If moreover every page's \<^verbatim>\<open>results\<close> is a
  list and no record raises while its row is built, the loop returns normally; the
  requests it sent are exactly the URLs of the chain, in order, so that nothing is
  requested after the page whose \<^verbatim>\<open>next\<close> is \<^verbatim>\<open>None\<close>; and \<^verbatim>\<open>people_data\<close> holds one row
  for each record of the concatenation of all \<^verbatim>\<open>results\<close> lists, in that order.
\<close>

theorem people_pagination_terminates:
  assumes "page_chain web 0 (PStr start) fetches"
  shows "(\<exists>r. people_loop web (PStr start) [] [] = Some r)
    \<and> (list_all2 (\<lambda>(u, page) recs. subscript page ''results'' = Inr (PList recs)) fetches recss
         \<and> people_for (concat recss) [] = Inr data \<longrightarrow>
       people_loop web (PStr start) [] [] = Some (Inr (map fst fetches, data))
       \<and> length data = length (concat recss)
       \<and> (\<forall>i<length data. people_row (concat recss ! i) = Inr (data ! i)))"
proof (intro conjI impI)
  show "\<exists>r. people_loop web (PStr start) [] [] = Some r"
    using people_loop_chain_returns [where sent = "[]" and web = web] assms by simp
next
  assume h: "list_all2 (\<lambda>(u, page) recs. subscript page ''results'' = Inr (PList recs)) fetches recss
    \<and> people_for (concat recss) [] = Inr data"
  then have res: "list_all2 (\<lambda>(u, page) recs. subscript page ''results'' = Inr (PList recs)) fetches recss"
    and rows: "people_for (concat recss) [] = Inr data"
    by simp_all
  from people_loop_chain [where sent = "[]" and web = web, OF _ res rows] assms
  show "people_loop web (PStr start) [] [] = Some (Inr (map fst fetches, data))" by simp
  from people_for_rows [OF rows]
  show "length data = length (concat recss)"
    and "\<forall>i<length data. people_row (concat recss ! i) = Inr (data ! i)"
    by auto
qed

text \<open>The two-page sample listing is such a chain.\<close>

theorem people_pagination_terminates_witness:
  "people_loop people_web (PStr api_url_people) [] [] =
     Some (Inr ([api_url_people, ''https://x/people/?page=2''],
       [[PStr ''Luke Skywalker'', PInt 53, PStr ''blue'', PStr ''male'', PStr ''172'', PStr ''77'',
         PInt 1, PInt 1],
        [PStr ''R4-P17'', PNone, PStr ''red, blue'', PStr ''n/a'', PStr ''96'', PStr ''unknown'',
         PInt 28, PNone]]))"
proof -
  have chain: "page_chain people_web 0 (PStr api_url_people)
      [(api_url_people, people_page1), (''https://x/people/?page=2'', people_page2)]"
    by (simp add: people_web_def serve_def people_page1_def people_page2_def api_url_people_def)
  have res: "list_all2 (\<lambda>(u, page) recs. subscript page ''results'' = Inr (PList recs))
      [(api_url_people, people_page1), (''https://x/people/?page=2'', people_page2)]
      [[luke], [droid]]"
    by (simp add: people_page1_def people_page2_def)
  have rows: "people_for (concat [[luke], [droid]]) [] =
      Inr [[PStr ''Luke Skywalker'', PInt 53, PStr ''blue'', PStr ''male'', PStr ''172'',
            PStr ''77'', PInt 1, PInt 1],
           [PStr ''R4-P17'', PNone, PStr ''red, blue'', PStr ''n/a'', PStr ''96'',
            PStr ''unknown'', PInt 28, PNone]]"
    by code_simp
  from people_pagination_terminates [OF chain, of "[[luke], [droid]]"
      "[[PStr ''Luke Skywalker'', PInt 53, PStr ''blue'', PStr ''male'', PStr ''172'',
         PStr ''77'', PInt 1, PInt 1],
        [PStr ''R4-P17'', PNone, PStr ''red, blue'', PStr ''n/a'', PStr ''96'',
         PStr ''unknown'', PInt 28, PNone]]"] res rows
  show ?thesis by simp
qed

text \<open>
  Claim C2, as amended. When the page fetched has \<^verbatim>\<open>next\<close> equal to \<^verbatim>\<open>None\<close>, the loop adds
  the rows of that page, sends no further request and returns. When the page is an
  object without a \<^verbatim>\<open>next\<close> key, \<^verbatim>\<open>data['next']\<close> raises \<^verbatim>\<open>KeyError\<close> and the loop ends
  with that exception: no rows are returned.
\<close>

theorem people_loop_next_null_or_missing:
  "(u \<noteq> [] \<and> web (length sent) u = Inr page \<and> subscript page ''next'' = Inr PNone
      \<and> subscript page ''results'' = Inr (PList recs) \<and> people_for recs acc = Inr data
     \<longrightarrow> people_loop web (PStr u) sent acc = Some (Inr (sent @ [u], data)))
   \<and> (u \<noteq> [] \<and> web (length sent) u = Inr (PDict d) \<and> map_of d ''next'' = None
     \<longrightarrow> people_loop web (PStr u) sent acc = Some (Inl KeyError))"
  using people_loop_step [where u = u and web = web and sent = sent and page = page
      and next_url = PNone and recs = recs and acc = acc and acc' = data]
    people_loop_missing_next [where u = u and web = web and sent = sent and d = d and acc = acc]
  by (simp add: people_loop_stop)

text \<open>Both cases on the sample services.\<close>

theorem people_loop_next_null_or_missing_witness:
  "people_loop people_web (PStr ''https://x/people/?page=2'') [api_url_people] [] =
     Some (Inr ([api_url_people, ''https://x/people/?page=2''],
       [[PStr ''R4-P17'', PNone, PStr ''red, blue'', PStr ''n/a'', PStr ''96'', PStr ''unknown'',
         PInt 28, PNone]]))
   \<and> people_loop broken_web (PStr api_url_people) [] [] = Some (Inl KeyError)"
proof -
  have a: "''https://x/people/?page=2'' \<noteq> []
      \<and> people_web (length [api_url_people]) ''https://x/people/?page=2'' = Inr people_page2
      \<and> subscript people_page2 ''next'' = Inr PNone
      \<and> subscript people_page2 ''results'' = Inr (PList [droid])
      \<and> people_for [droid] [] = Inr [[PStr ''R4-P17'', PNone, PStr ''red, blue'', PStr ''n/a'',
           PStr ''96'', PStr ''unknown'', PInt 28, PNone]]"
    by code_simp
  have b: "api_url_people \<noteq> []
      \<and> broken_web (length ([] :: string list)) api_url_people =
          Inr (PDict [(''count'', PInt 0), (''results'', PList [])])
      \<and> map_of [(''count'', PInt 0), (''results'', PList [])] ''next'' = None"
    by code_simp
  from people_loop_next_null_or_missing [where u = "''https://x/people/?page=2''"
      and web = people_web and sent = "[api_url_people]" and page = people_page2
      and recs = "[droid]" and acc = "[]"] a
  have "people_loop people_web (PStr ''https://x/people/?page=2'') [api_url_people] [] =
     Some (Inr ([api_url_people, ''https://x/people/?page=2''],
       [[PStr ''R4-P17'', PNone, PStr ''red, blue'', PStr ''n/a'', PStr ''96'', PStr ''unknown'',
         PInt 28, PNone]]))"
    by simp
  moreover from people_loop_next_null_or_missing [where u = api_url_people
      and web = broken_web and sent = "[]" and acc = "[]"
      and d = "[(''count'', PInt 0), (''results'', PList [])]"] b
  have "people_loop broken_web (PStr api_url_people) [] [] = Some (Inl KeyError)"
    by simp
  ultimately show ?thesis by simp
qed

text \<open>
  Claim C2 as stated fails: on a listing whose page lacks the \<^verbatim>\<open>next\<close> key the loop, and
  with it the whole people block, ends with \<^verbatim>\<open>KeyError\<close> instead of returning rows.
\<close>

theorem missing_next_raises:
  "people_loop broken_web (PStr api_url_people) [] [] = Some (Inl KeyError)
   \<and> people_extraction broken_web = Some (Inl KeyError)"
  by code_simp

section \<open>Sequential ids\<close>

lemma numbered_snoc:
  "numbered rows idn \<Longrightarrow> length row = 6 \<Longrightarrow> row ! 0 = PInt idn \<Longrightarrow> numbered (rows @ [row]) (idn + 1)"
  by (auto simp: numbered_def nth_append)

lemma planets_row_shape: "planets_row idn planet = Inr row \<Longrightarrow> length row = 6 \<and> row ! 0 = PInt idn"
  by (auto simp: planets_row_def ebind_def split: sum.splits)

lemma species_row_shape: "species_row idn species = Inr row \<Longrightarrow> length row = 6 \<and> row ! 0 = PInt idn"
  by (auto simp: species_row_def ebind_def split: sum.splits)

lemma planets_for_numbered:
  "planets_for recs acc idn = Inr (acc', idn') \<Longrightarrow> numbered acc idn \<Longrightarrow> numbered acc' idn'"
proof (induction recs arbitrary: acc idn)
  case Nil
  then show ?case by simp
next
  case (Cons r recs)
  from Cons.prems(1) obtain row where row: "planets_row idn r = Inr row"
    and rest: "planets_for recs (acc @ [row]) (idn + 1) = Inr (acc', idn')"
    by (auto split: sum.splits)
  from planets_row_shape [OF row] Cons.prems(2) have "numbered (acc @ [row]) (idn + 1)"
    by (simp add: numbered_snoc)
  with rest show ?case by (rule Cons.IH)
qed

lemma species_for_numbered:
  "species_for recs acc idn = Inr (acc', idn') \<Longrightarrow> numbered acc idn \<Longrightarrow> numbered acc' idn'"
proof (induction recs arbitrary: acc idn)
  case Nil
  then show ?case by simp
next
  case (Cons r recs)
  from Cons.prems(1) obtain row where row: "species_row idn r = Inr row"
    and rest: "species_for recs (acc @ [row]) (idn + 1) = Inr (acc', idn')"
    by (auto split: sum.splits)
  from species_row_shape [OF row] Cons.prems(2) have "numbered (acc @ [row]) (idn + 1)"
    by (simp add: numbered_snoc)
  with rest show ?case by (rule Cons.IH)
qed

lemma planets_loop_numbered:
  assumes "planets_loop web api_url sent acc idn = Some res"
  shows "numbered acc idn \<longrightarrow> (\<forall>sent' acc' idn'. res = Inr (sent', acc', idn') \<longrightarrow> numbered acc' idn')"
  using assms
proof (induction rule: planets_loop.raw_induct [rotated 1, consumes 1])
  case (1 loop web api_url sent acc idn res)
  show ?case
  proof (intro impI allI)
    fix sent' acc' idn'
    assume inv: "numbered acc idn" and res: "res = Inr (sent', acc', idn')"
    show "numbered acc' idn'"
    proof (cases "api_url = PNone")
      case True
      with 1(2) res inv show ?thesis by simp
    next
      case False
      with 1(2) res obtain data sent1 next_url planets acc1 idn1 where
        fr: "planets_for planets acc idn = Inr (acc1, idn1)"
        and rec: "loop web next_url sent1 acc1 idn1 = Some (Inr (sent', acc', idn'))"
        by (auto split: sum.splits prod.splits)
      from planets_for_numbered [OF fr inv] have "numbered acc1 idn1" .
      with 1(1) [OF rec] show ?thesis by blast
    qed
  qed
qed

lemma species_loop_numbered:
  assumes "species_loop web api_url sent acc idn = Some res"
  shows "numbered acc idn \<longrightarrow> (\<forall>sent' acc' idn'. res = Inr (sent', acc', idn') \<longrightarrow> numbered acc' idn')"
  using assms
proof (induction rule: species_loop.raw_induct [rotated 1, consumes 1])
  case (1 loop web api_url sent acc idn res)
  show ?case
  proof (intro impI allI)
    fix sent' acc' idn'
    assume inv: "numbered acc idn" and res: "res = Inr (sent', acc', idn')"
    show "numbered acc' idn'"
    proof (cases "api_url = PNone")
      case True
      with 1(2) res inv show ?thesis by simp
    next
      case False
      with 1(2) res obtain data sent1 next_url specieses acc1 idn1 where
        fr: "species_for specieses acc idn = Inr (acc1, idn1)"
        and rec: "loop web next_url sent1 acc1 idn1 = Some (Inr (sent', acc', idn'))"
        by (auto split: sum.splits prod.splits)
      from species_for_numbered [OF fr inv] have "numbered acc1 idn1" .
      with 1(1) [OF rec] show ?thesis by blast
    qed
  qed
qed

lemma numbered_Nil: "numbered [] 1"
  by (simp add: numbered_def)

lemma scrub_PInt: "scrub (PInt n) = PInt n"
  by (simp add: scrub_def is_sentinel_def)

lemma numbered_csv:
  assumes "numbered rows idn" "1 \<le> k" "k < length (header # remove_unkown rows)"
  shows "(header # remove_unkown rows) ! k ! 0 = PInt (int k)"
proof -
  from assms(2,3) obtain j where k: "k = Suc j" and j: "j < length rows"
    by (cases k) (simp_all add: remove_unkown_map)
  from assms(1) j have "length (rows ! j) = 6" "rows ! j ! 0 = PInt (int j + 1)"
    by (simp_all add: numbered_def)
  then show ?thesis using j by (simp add: k remove_unkown_map scrub_PInt)
qed

text \<open>
  Claim C6. Whenever the planets loop, or the species loop, started as in the script,
  returns, the first cell of the \<open>k\<close>-th row gathered (counting from one) is the integer
  \<open>k\<close>, and the counter is one more than the number of rows. The same holds for the
  rows written to the file, where row 0 is the header. The numbering is an invariant of
  every pass over a page (\<^const>\<open>numbered\<close>), so it also holds for the rows gathered so
  far by a loop that has not ended. The records of the service are arbitrary, so an
  \<^verbatim>\<open>id\<close> field of a source object has no influence.
\<close>

theorem sequential_ids:
  "(planets_loop web (PStr api_url_planets) [] [] 1 = Some (Inr (sent1, planets_data, idn1)) \<longrightarrow>
      idn1 = int (length planets_data) + 1
      \<and> (\<forall>k<length planets_data. planets_data ! k ! 0 = PInt (int k + 1)))
   \<and> (planets_extraction web = Some (Inr (sent2, planets_csv)) \<longrightarrow>
      (\<forall>k. 1 \<le> k \<and> k < length planets_csv \<longrightarrow> planets_csv ! k ! 0 = PInt (int k)))
   \<and> (species_loop web (PStr api_url_species) [] [] 1 = Some (Inr (sent3, species_data, idn3)) \<longrightarrow>
      idn3 = int (length species_data) + 1
      \<and> (\<forall>k<length species_data. species_data ! k ! 0 = PInt (int k + 1)))
   \<and> (species_extraction web = Some (Inr (sent4, species_csv)) \<longrightarrow>
      (\<forall>k. 1 \<le> k \<and> k < length species_csv \<longrightarrow> species_csv ! k ! 0 = PInt (int k)))
   \<and> numbered [] 1
   \<and> (numbered rows idn \<and> planets_for planets rows idn = Inr (rows', idn') \<longrightarrow> numbered rows' idn')
   \<and> (numbered rows idn \<and> species_for specieses rows idn = Inr (rows'', idn'') \<longrightarrow>
        numbered rows'' idn'')"
proof (intro conjI impI)
  assume "planets_loop web (PStr api_url_planets) [] [] 1 = Some (Inr (sent1, planets_data, idn1))"
  from planets_loop_numbered [OF this] numbered_Nil have "numbered planets_data idn1" by blast
  then show "idn1 = int (length planets_data) + 1"
    and "\<forall>k<length planets_data. planets_data ! k ! 0 = PInt (int k + 1)"
    by (simp_all add: numbered_def)
next
  assume "species_loop web (PStr api_url_species) [] [] 1 = Some (Inr (sent3, species_data, idn3))"
  from species_loop_numbered [OF this] numbered_Nil have "numbered species_data idn3" by blast
  then show "idn3 = int (length species_data) + 1"
    and "\<forall>k<length species_data. species_data ! k ! 0 = PInt (int k + 1)"
    by (simp_all add: numbered_def)
next
  assume "planets_extraction web = Some (Inr (sent2, planets_csv))"
  then obtain rows i where
    l: "planets_loop web (PStr api_url_planets) [] [] 1 = Some (Inr (sent2, rows, i))"
    and csv: "planets_csv = planets_header # remove_unkown rows"
    by (auto simp: planets_extraction_def split: option.splits sum.splits)
  from planets_loop_numbered [OF l] numbered_Nil have "numbered rows i" by blast
  then show "\<forall>k. 1 \<le> k \<and> k < length planets_csv \<longrightarrow> planets_csv ! k ! 0 = PInt (int k)"
    unfolding csv using numbered_csv by blast
next
  assume "species_extraction web = Some (Inr (sent4, species_csv))"
  then obtain rows i where
    l: "species_loop web (PStr api_url_species) [] [] 1 = Some (Inr (sent4, rows, i))"
    and csv: "species_csv = species_header # remove_unkown rows"
    by (auto simp: species_extraction_def split: option.splits sum.splits)
  from species_loop_numbered [OF l] numbered_Nil have "numbered rows i" by blast
  then show "\<forall>k. 1 \<le> k \<and> k < length species_csv \<longrightarrow> species_csv ! k ! 0 = PInt (int k)"
    unfolding csv using numbered_csv by blast
next
  show "numbered [] 1" by (rule numbered_Nil)
next
  assume "numbered rows idn \<and> planets_for planets rows idn = Inr (rows', idn')"
  then show "numbered rows' idn'" using planets_for_numbered by blast
next
  assume "numbered rows idn \<and> species_for specieses rows idn = Inr (rows'', idn'')"
  then show "numbered rows'' idn''" using species_for_numbered by blast
qed

text \<open>
  On the sample service the source objects carry the ids 99, 7 and 1, and 5 and \<^verbatim>\<open>"3"\<close>;
  the rows are numbered 1, 2, 3 and 1, 2.
\<close>

theorem sequential_ids_witness:
  "planets_extraction swapi_web = Some (Inr
     ([api_url_planets, ''https://x/planets/?page=2''],
      [planets_header,
       [PInt 1, PStr ''Tatooine'', PStr ''10465'', PStr ''23'', PStr ''200000'', PStr ''1''],
       [PInt 2, PStr ''Alderaan'', PStr ''12500'', PStr ''24'', PStr ''2000000000'', PStr ''40''],
       [PInt 3, PNone, PStr ''0'', PStr ''0'', PNone, PNone]]))
   \<and> the_rows (planets_extraction swapi_web) ! 1 ! 0 = PInt 1
   \<and> the_rows (planets_extraction swapi_web) ! 2 ! 0 = PInt 2
   \<and> the_rows (planets_extraction swapi_web) ! 3 ! 0 = PInt 3
   \<and> species_extraction swapi_web = Some (Inr
     ([api_url_species],
      [species_header,
       [PInt 1, PStr ''Hutt'', PStr ''gastropod'', PStr ''sentient'', PStr ''300'', PStr ''1000''],
       [PInt 2, PStr ''Droid'', PStr ''artificial'', PStr ''sentient'', PNone, PStr ''indefinite'']]))
   \<and> the_rows (species_extraction swapi_web) ! 1 ! 0 = PInt 1
   \<and> the_rows (species_extraction swapi_web) ! 2 ! 0 = PInt 2"
proof -
  let ?pcsv = "[planets_header,
       [PInt 1, PStr ''Tatooine'', PStr ''10465'', PStr ''23'', PStr ''200000'', PStr ''1''],
       [PInt 2, PStr ''Alderaan'', PStr ''12500'', PStr ''24'', PStr ''2000000000'', PStr ''40''],
       [PInt 3, PNone, PStr ''0'', PStr ''0'', PNone, PNone]]"
  let ?scsv = "[species_header,
       [PInt 1, PStr ''Hutt'', PStr ''gastropod'', PStr ''sentient'', PStr ''300'', PStr ''1000''],
       [PInt 2, PStr ''Droid'', PStr ''artificial'', PStr ''sentient'', PNone, PStr ''indefinite'']]"
  have p: "planets_extraction swapi_web =
      Some (Inr ([api_url_planets, ''https://x/planets/?page=2''], ?pcsv))"
    by code_simp
  have s: "species_extraction swapi_web = Some (Inr ([api_url_species], ?scsv))"
    by code_simp
  note ids = sequential_ids [where web = swapi_web
      and ?sent2.0 = "[api_url_planets, ''https://x/planets/?page=2'']" and planets_csv = ?pcsv
      and ?sent4.0 = "[api_url_species]" and species_csv = ?scsv]
  from ids p have pk: "\<forall>k. 1 \<le> k \<and> k < length ?pcsv \<longrightarrow> ?pcsv ! k ! 0 = PInt (int k)"
    by blast
  from ids s have sk: "\<forall>k. 1 \<le> k \<and> k < length ?scsv \<longrightarrow> ?scsv ! k ! 0 = PInt (int k)"
    by blast
  have "the_rows (planets_extraction swapi_web) ! 1 ! 0 = PInt 1"
    "the_rows (planets_extraction swapi_web) ! 2 ! 0 = PInt 2"
    "the_rows (planets_extraction swapi_web) ! 3 ! 0 = PInt 3"
    using pk [rule_format, of 1] pk [rule_format, of 2] pk [rule_format, of 3]
    unfolding p by (simp_all add: the_rows_def)
  moreover have "the_rows (species_extraction swapi_web) ! 1 ! 0 = PInt 1"
    "the_rows (species_extraction swapi_web) ! 2 ! 0 = PInt 2"
    using sk [rule_format, of 1] sk [rule_format, of 2]
    unfolding s by (simp_all add: the_rows_def)
  ultimately show ?thesis using p s by simp
qed

section \<open>The people file\<close>

lemma scrub_PNone: "scrub PNone = PNone"
  by (simp add: scrub_def)

lemma age_19BBY: "calculate_age (PStr ''19BBY'') 34 = Inr (PInt 53)"
  by code_simp

lemma age_unknown: "calculate_age (PStr ''unknown'') 34 = Inr PNone"
  by code_simp

lemma id_x1: "extract_id (PList [PStr ''https://x/1/'']) = Inr (PInt 1)"
  by code_simp

text \<open>
  Claim C1. Let the people listing have two pages: the first, the answer to the first
  request, holds one record with birth year \<^verbatim>\<open>19BBY\<close> and homeworld
  \<^verbatim>\<open>["https://x/1/"]\<close> and names a non-empty URL as \<^verbatim>\<open>next\<close>; the second, the answer to
  the second request at that URL, has \<^verbatim>\<open>next\<close> equal to \<^verbatim>\<open>None\<close> and holds one record
  with birth year \<^verbatim>\<open>unknown\<close>. Let the remaining fields of both records be
  present, with masses that \<^verbatim>\<open>process_mass\<close> accepts and references that \<^verbatim>\<open>extract_id\<close>
  accepts. Then exactly two requests are sent, and the rows written to \<^verbatim>\<open>people.csv\<close>
  are the header and two data rows in page order; the first has age 53 and homeworld id
  1, the second has \<^verbatim>\<open>None\<close> as its age.
\<close>

theorem people_csv_two_pages:
  assumes page1: "web 0 api_url_people = Inr page1"
      "subscript page1 ''next'' = Inr (PStr u2)" "u2 \<noteq> []"
      "subscript page1 ''results'' = Inr (PList [person1])"
    and page2: "web 1 u2 = Inr page2"
      "subscript page2 ''next'' = Inr PNone"
      "subscript page2 ''results'' = Inr (PList [person2])"
    and person1: "subscript person1 ''birth_year'' = Inr (PStr ''19BBY'')"
      "subscript person1 ''homeworld'' = Inr (PList [PStr ''https://x/1/''])"
    and person2: "subscript person2 ''birth_year'' = Inr (PStr ''unknown'')"
    and others1: "subscript person1 ''name'' = Inr name1"
      "subscript person1 ''eye_color'' = Inr eye_color1"
      "subscript person1 ''gender'' = Inr gender1"
      "subscript person1 ''height'' = Inr height1"
      "subscript person1 ''mass'' = Inr m1" "process_mass m1 = Inr mass1"
      "subscript person1 ''species'' = Inr s1" "extract_id s1 = Inr species_id1"
    and others2: "subscript person2 ''name'' = Inr name2"
      "subscript person2 ''eye_color'' = Inr eye_color2"
      "subscript person2 ''gender'' = Inr gender2"
      "subscript person2 ''height'' = Inr height2"
      "subscript person2 ''mass'' = Inr m2" "process_mass m2 = Inr mass2"
      "subscript person2 ''homeworld'' = Inr h2" "extract_id h2 = Inr homeworld_id2"
      "subscript person2 ''species'' = Inr s2" "extract_id s2 = Inr species_id2"
  shows "people_extraction web = Some (Inr ([api_url_people, u2],
     [people_header,
      [scrub name1, PInt 53, scrub eye_color1, scrub gender1, scrub height1, scrub mass1,
       PInt 1, scrub species_id1],
      [scrub name2, PNone, scrub eye_color2, scrub gender2, scrub height2, scrub mass2,
       scrub homeworld_id2, scrub species_id2]]))"
proof -
  have row1: "people_row person1 =
      Inr [name1, PInt 53, eye_color1, gender1, height1, mass1, PInt 1, species_id1]"
    by (simp add: people_row_def ebind_def person1 others1 age_19BBY id_x1)
  have row2: "people_row person2 =
      Inr [name2, PNone, eye_color2, gender2, height2, mass2, homeworld_id2, species_id2]"
    by (simp add: people_row_def ebind_def person2 others2 age_unknown)
  have chain: "page_chain web 0 (PStr api_url_people) [(api_url_people, page1), (u2, page2)]"
    using page1 page2 by (simp add: api_url_people_def)
  have res: "list_all2 (\<lambda>(u, page) recs. subscript page ''results'' = Inr (PList recs))
      [(api_url_people, page1), (u2, page2)] [[person1], [person2]]"
    using page1 page2 by simp
  have rows: "people_for (concat [[person1], [person2]]) [] =
      Inr [[name1, PInt 53, eye_color1, gender1, height1, mass1, PInt 1, species_id1],
           [name2, PNone, eye_color2, gender2, height2, mass2, homeworld_id2, species_id2]]"
    by (simp add: row1 row2)
  from people_loop_chain [where sent = "[]" and web = web, OF _ res rows] chain show ?thesis
    by (simp add: people_extraction_def remove_unkown_map scrub_PInt scrub_PNone)
qed

theorem people_csv_two_pages_witness:
  "people_extraction people_web = Some (Inr ([api_url_people, ''https://x/people/?page=2''],
     [people_header,
      [PStr ''Luke Skywalker'', PInt 53, PStr ''blue'', PStr ''male'', PStr ''172'', PStr ''77'',
       PInt 1, PInt 1],
      [PStr ''R4-P17'', PNone, PStr ''red, blue'', PNone, PStr ''96'', PNone, PInt 28, PNone]]))"
proof -
  have p1: "people_web 0 api_url_people = Inr people_page1"
    "subscript people_page1 ''next'' = Inr (PStr ''https://x/people/?page=2'')"
    "''https://x/people/?page=2'' \<noteq> []"
    "subscript people_page1 ''results'' = Inr (PList [luke])"
    by (simp_all add: people_web_def serve_def people_page1_def)
  have p2: "people_web 1 ''https://x/people/?page=2'' = Inr people_page2"
    "subscript people_page2 ''next'' = Inr PNone"
    "subscript people_page2 ''results'' = Inr (PList [droid])"
    by (simp_all add: people_web_def serve_def people_page2_def api_url_people_def)
  have l: "subscript luke ''birth_year'' = Inr (PStr ''19BBY'')"
    "subscript luke ''homeworld'' = Inr (PList [PStr ''https://x/1/''])"
    "subscript luke ''name'' = Inr (PStr ''Luke Skywalker'')"
    "subscript luke ''eye_color'' = Inr (PStr ''blue'')"
    "subscript luke ''gender'' = Inr (PStr ''male'')"
    "subscript luke ''height'' = Inr (PStr ''172'')"
    "subscript luke ''mass'' = Inr (PStr ''77'')"
    "subscript luke ''species'' = Inr (PList [PStr ''https://x/species/1/''])"
    by (simp_all add: luke_def)
  have d: "subscript droid ''birth_year'' = Inr (PStr ''unknown'')"
    "subscript droid ''name'' = Inr (PStr ''R4-P17'')"
    "subscript droid ''eye_color'' = Inr (PStr ''red, blue'')"
    "subscript droid ''gender'' = Inr (PStr ''n/a'')"
    "subscript droid ''height'' = Inr (PStr ''96'')"
    "subscript droid ''mass'' = Inr (PStr ''unknown'')"
    "subscript droid ''homeworld'' = Inr (PStr ''https://x/planets/28/'')"
    "subscript droid ''species'' = Inr (PList [])"
    by (simp_all add: droid_def)
  have c: "process_mass (PStr ''77'') = Inr (PStr ''77'')"
    "extract_id (PList [PStr ''https://x/species/1/'']) = Inr (PInt 1)"
    "process_mass (PStr ''unknown'') = Inr (PStr ''unknown'')"
    "extract_id (PStr ''https://x/planets/28/'') = Inr (PInt 28)"
    "extract_id (PList []) = Inr PNone"
    by code_simp+
  from people_csv_two_pages [where web = people_web,
      OF p1 p2 l(1,2) d(1) l(3-7) c(1) l(8) c(2) d(2-6) c(3) d(7) c(4) d(8) c(5)]
  show ?thesis by (simp add: scrub_def is_sentinel_def)
qed

end
